theory Spec2Isabelle
  imports Main "HOL-Library.Word"
begin

section \<open>Deferred log fields (field.go)\<close>

text \<open>
  A shallow embedding of \<^verbatim>\<open>field.go\<close>: the \<^verbatim>\<open>Field\<close> struct, its constructors
  and \<^verbatim>\<open>Field.AddTo\<close>, which replays a field into a \<^verbatim>\<open>KeyValue\<close> sink.
  The sink is an interface whose implementations live elsewhere, so it is a parameter of
  the model: a record of operations over an arbitrary sink state.
\<close>

subsection \<open>Data model\<close>

text \<open>
  \<^verbatim>\<open>type fieldType int\<close> with ten constants numbered by \<^verbatim>\<open>iota\<close>. Only equality
  with these constants is ever tested, so the discriminant is an integer and values
  outside the constants stay representable.
\<close>

type_synonym fieldType = int

definition unknownType :: fieldType where "unknownType = 0"
definition boolType :: fieldType where "boolType = 1"
definition floatType :: fieldType where "floatType = 2"
definition intType :: fieldType where "intType = 3"
definition int64Type :: fieldType where "int64Type = 4"
definition stringType :: fieldType where "stringType = 5"
definition marshalerType :: fieldType where "marshalerType = 6"
definition objectType :: fieldType where "objectType = 7"
definition stringerType :: fieldType where "stringerType = 8"
definition skipType :: fieldType where "skipType = 9"

lemmas fieldType_defs =
  unknownType_def boolType_def floatType_def intType_def int64Type_def stringType_def
  marshalerType_def objectType_def stringerType_def skipType_def

text \<open>
  A \<^verbatim>\<open>float64\<close> is its 64-bit IEEE-754 pattern: \<^verbatim>\<open>math.Float64bits\<close> and
  \<^verbatim>\<open>math.Float64frombits\<close> reinterpret the same eight bytes, so they are the
  selector and the constructor of the type. NaN payloads, both infinities and both zeros
  are distinct patterns, hence distinct values.
\<close>

datatype float64 = Float64frombits (Float64bits: "64 word")

text \<open>A non-nil Go \<^verbatim>\<open>error\<close> is represented by the text its \<^verbatim>\<open>Error()\<close> method
  returns; a nil error is \<open>None\<close> of \<open>error option\<close>.\<close>

datatype error = New (message: string)

text \<open>
  \<^verbatim>\<open>Field\<close> as declared: key, discriminant, the 64-bit integer slot, the string slot
  and the \<^verbatim>\<open>interface{}\<close> slot. An interface value is nil, or the package's own
  \<^verbatim>\<open>multiFields\<close> slice (the only type of the file with a \<^verbatim>\<open>MarshalLog\<close>
  method), or a value of a caller's type. Of a caller's value the model keeps a handle,
  what its \<^verbatim>\<open>String()\<close> method returns when it is called (\<open>None\<close>: the type is not a
  \<^verbatim>\<open>fmt.Stringer\<close>), and whether the type implements \<^verbatim>\<open>LogMarshaler\<close>.
  \<^verbatim>\<open>int64\<close> and \<^verbatim>\<open>uint64\<close> are both \<open>64 word\<close>: converting between them keeps the
  bits.
\<close>

datatype Field =
  Field (key: string) (fieldType: fieldType) (ival: "64 word") (str: string) (obj: any)
and any =
  Nil
  | multiFields "Field list"
  | User (handle: nat) (String_result: "string option") (hasMarshalLog: bool)

text \<open>The checked type assertions \<^verbatim>\<open>f.obj.(LogMarshaler)\<close> and
  \<^verbatim>\<open>f.obj.(fmt.Stringer)\<close>: they fail on a nil interface and on a value whose type
  lacks the method.\<close>

fun is_LogMarshaler :: "any \<Rightarrow> bool" where
  "is_LogMarshaler Nil = False"
| "is_LogMarshaler (multiFields fs) = True"
| "is_LogMarshaler (User h st m) = m"

fun as_Stringer :: "any \<Rightarrow> string option" where
  "as_Stringer Nil = None"
| "as_Stringer (multiFields fs) = None"
| "as_Stringer (User h st m) = st"

text \<open>What a run-time panic carries.\<close>

datatype panic =
  UnknownFieldType Field
  | InterfaceConversion any
  | NilDereference

text \<open>
  A call either returns (a result and the sink's new state) or panics (leaving the sink
  in the state it had reached).
\<close>

datatype ('a, 's) outcome = Returns 'a 's | Panics panic 's

text \<open>
  Modelled from the spec: the \<^verbatim>\<open>KeyValue\<close> interface is declared outside
  \<^verbatim>\<open>field.go\<close>; its seven methods and their signatures are those the spec lists as
  the sink capability set and \<^verbatim>\<open>AddTo\<close> calls. The five scalar writes
  return nothing; \<^verbatim>\<open>AddMarshaler\<close> and \<^verbatim>\<open>AddObject\<close> return an \<^verbatim>\<open>error\<close> and,
  since they run encoders supplied by the caller, may panic. \<open>'i\<close> is the width of the
  platform's \<^verbatim>\<open>int\<close>, \<open>'s\<close> the state of the sink.
\<close>

record (overloaded) ('i, 's) KeyValue =
  AddBool :: "string \<Rightarrow> bool \<Rightarrow> 's \<Rightarrow> 's"
  AddFloat64 :: "string \<Rightarrow> float64 \<Rightarrow> 's \<Rightarrow> 's"
  AddInt :: "string \<Rightarrow> 'i word \<Rightarrow> 's \<Rightarrow> 's"
  AddInt64 :: "string \<Rightarrow> 64 word \<Rightarrow> 's \<Rightarrow> 's"
  AddString :: "string \<Rightarrow> string \<Rightarrow> 's \<Rightarrow> 's"
  AddMarshaler :: "string \<Rightarrow> any \<Rightarrow> 's \<Rightarrow> (error option, 's) outcome"
  AddObject :: "string \<Rightarrow> any \<Rightarrow> 's \<Rightarrow> (error option, 's) outcome"

subsection \<open>Base64\<close>

text \<open>
  Modelled from the spec: \<^verbatim>\<open>base64.StdEncoding.EncodeToString\<close> belongs to Go's
  standard library, not to this repository; the spec names it the standard, padded base64
  encoding. Three bytes become four characters of the standard alphabet; a last group of
  one or two bytes is padded with \<^verbatim>\<open>=\<close>.
\<close>

definition encodeStd :: string where
  "encodeStd = ''ABCDEFGHIJKLMNOPQRSTUVWXYZabcdefghijklmnopqrstuvwxyz0123456789+/''"

fun EncodeToString :: "8 word list \<Rightarrow> string" where
  "EncodeToString (a # b # c # src) =
     (let val = unat a * 65536 + unat b * 256 + unat c
      in [encodeStd ! (val div 262144 mod 64), encodeStd ! (val div 4096 mod 64),
          encodeStd ! (val div 64 mod 64), encodeStd ! (val mod 64)]
         @ EncodeToString src)"
| "EncodeToString [a, b] =
     (let val = unat a * 65536 + unat b * 256
      in [encodeStd ! (val div 262144 mod 64), encodeStd ! (val div 4096 mod 64),
          encodeStd ! (val div 64 mod 64), CHR ''=''])"
| "EncodeToString [a] =
     (let val = unat a * 65536
      in [encodeStd ! (val div 262144 mod 64), encodeStd ! (val div 4096 mod 64),
          CHR ''='', CHR ''=''])"
| "EncodeToString [] = []"

subsection \<open>Constructors\<close>

definition Skip :: Field where
  "Skip = Field [] skipType 0 [] Nil"

definition String_field :: "string \<Rightarrow> string \<Rightarrow> Field" where
  "String_field k val = Field k stringType 0 val Nil"

definition Base64 :: "string \<Rightarrow> 8 word list \<Rightarrow> Field" where
  "Base64 k val = String_field k (EncodeToString val)"

definition Bool :: "string \<Rightarrow> bool \<Rightarrow> Field" where
  "Bool k val = Field k boolType (if val then 1 else 0) [] Nil"

definition Float64 :: "string \<Rightarrow> float64 \<Rightarrow> Field" where
  "Float64 k val = Field k floatType (Float64bits val) [] Nil"

text \<open>\<^verbatim>\<open>int64(val)\<close> of a platform \<^verbatim>\<open>int\<close> sign-extends.\<close>

definition Int_field :: "string \<Rightarrow> 'i::len word \<Rightarrow> Field" where
  "Int_field k val = Field k intType (scast val) [] Nil"

definition Int64 :: "string \<Rightarrow> 64 word \<Rightarrow> Field" where
  "Int64 k val = Field k int64Type val [] Nil"

definition Stringer :: "string \<Rightarrow> any \<Rightarrow> Field" where
  "Stringer k val = Field k stringerType 0 [] val"

definition Duration :: "string \<Rightarrow> 64 word \<Rightarrow> Field" where
  "Duration k val = Int64 k val"

definition Marshaler :: "string \<Rightarrow> any \<Rightarrow> Field" where
  "Marshaler k val = Field k marshalerType 0 [] val"

definition Object :: "string \<Rightarrow> any \<Rightarrow> Field" where
  "Object k val = Field k objectType 0 [] val"

definition Nest :: "string \<Rightarrow> Field list \<Rightarrow> Field" where
  "Nest k fs = Field k marshalerType 0 [] (multiFields fs)"

definition Error :: "error option \<Rightarrow> Field" where
  "Error err = (case err of None \<Rightarrow> Skip | Some e \<Rightarrow> String_field ''error'' (message e))"

subsection \<open>Replay\<close>

text \<open>
  \<^verbatim>\<open>Field.AddTo\<close>: the switch on the discriminant yields the sink's new state and the
  value of the local \<^verbatim>\<open>err\<close>; the trailing \<^verbatim>\<open>if err != nil\<close> writes the
  \<^verbatim>\<open>fmt.Sprintf("%sError", f.key)\<close> field. \<^verbatim>\<open>int(f.ival)\<close> keeps the low bits.
\<close>

definition AddTo :: "('i::len, 's) KeyValue \<Rightarrow> Field \<Rightarrow> 's \<Rightarrow> (unit, 's) outcome" where
  "AddTo kv f s =
    (case
      (if fieldType f = boolType then
         Returns None (AddBool kv (key f) (ival f = 1) s)
       else if fieldType f = floatType then
         Returns None (AddFloat64 kv (key f) (Float64frombits (ival f)) s)
       else if fieldType f = intType then
         Returns None (AddInt kv (key f) (scast (ival f)) s)
       else if fieldType f = int64Type then
         Returns None (AddInt64 kv (key f) (ival f) s)
       else if fieldType f = stringType then
         Returns None (AddString kv (key f) (str f) s)
       else if fieldType f = stringerType then
         (case as_Stringer (obj f) of
            None \<Rightarrow> Panics (InterfaceConversion (obj f)) s
          | Some v \<Rightarrow> Returns None (AddString kv (key f) v s))
       else if fieldType f = marshalerType then
         (if is_LogMarshaler (obj f) then AddMarshaler kv (key f) (obj f) s
          else Panics (InterfaceConversion (obj f)) s)
       else if fieldType f = objectType then
         AddObject kv (key f) (obj f) s
       else if fieldType f = skipType then
         Returns None s
       else Panics (UnknownFieldType f) s)
     of
       Panics p s' \<Rightarrow> Panics p s'
     | Returns err s' \<Rightarrow>
         (case err of
            None \<Rightarrow> Returns () s'
          | Some e \<Rightarrow> Returns () (AddString kv (key f @ ''Error'') (message e) s')))"

text \<open>\<^verbatim>\<open>addFields\<close>: the range loop; a panic of one replay ends it.\<close>

fun addFields :: "('i::len, 's) KeyValue \<Rightarrow> Field list \<Rightarrow> 's \<Rightarrow> (unit, 's) outcome" where
  "addFields kv [] s = Returns () s"
| "addFields kv (f # fs) s =
     (case AddTo kv f s of
        Panics p s' \<Rightarrow> Panics p s'
      | Returns u s' \<Rightarrow> addFields kv fs s')"

text \<open>\<^verbatim>\<open>multiFields.MarshalLog\<close>: replay the slice, then \<^verbatim>\<open>return nil\<close>.\<close>

definition MarshalLog :: "('i::len, 's) KeyValue \<Rightarrow> Field list \<Rightarrow> 's \<Rightarrow> (error option, 's) outcome" where
  "MarshalLog kv fs s =
     (case addFields kv fs s of
        Panics p s' \<Rightarrow> Panics p s'
      | Returns u s' \<Rightarrow> Returns None s')"

text \<open>
  The panics of \<^verbatim>\<open>AddTo\<close> itself come from the default branch and from the two
  type assertions. A field is replayable when it avoids them: its kind is one the switch
  handles and, for the stringer and marshaler kinds, its payload passes the assertion.
\<close>

definition replayable :: "Field \<Rightarrow> bool" where
  "replayable f \<longleftrightarrow>
     fieldType f \<in> {boolType, floatType, intType, int64Type, stringType, objectType, skipType}
     \<or> fieldType f = stringerType \<and> as_Stringer (obj f) \<noteq> None
     \<or> fieldType f = marshalerType \<and> is_LogMarshaler (obj f)"

subsection \<open>Sinks\<close>

text \<open>
  A recording sink, to speak about the calls a replay makes: its state is the list of calls
  received so far, oldest first. What \<^verbatim>\<open>AddMarshaler\<close> and \<^verbatim>\<open>AddObject\<close> answer
  is given by two tables, so that every pattern of encoder failures can be played. It
  does not run the marshaler it is handed.
\<close>

datatype 'n call =
  CallAddBool string bool
  | CallAddFloat64 string float64
  | CallAddInt string 'n
  | CallAddInt64 string "64 word"
  | CallAddString string string
  | CallAddMarshaler string any
  | CallAddObject string any

definition recorder ::
  "(string \<Rightarrow> any \<Rightarrow> error option) \<Rightarrow> (string \<Rightarrow> any \<Rightarrow> error option)
   \<Rightarrow> ('i::len, 'i word call list) KeyValue" where
  "recorder em eo =
     \<lparr>AddBool = \<lambda>k v s. s @ [CallAddBool k v],
      AddFloat64 = \<lambda>k v s. s @ [CallAddFloat64 k v],
      AddInt = \<lambda>k v s. s @ [CallAddInt k v],
      AddInt64 = \<lambda>k v s. s @ [CallAddInt64 k v],
      AddString = \<lambda>k v s. s @ [CallAddString k v],
      AddMarshaler = \<lambda>k m s. Returns (em k m) (s @ [CallAddMarshaler k m]),
      AddObject = \<lambda>k v s. Returns (eo k v) (s @ [CallAddObject k v])\<rparr>"

text \<open>Two answer tables: every encoder fails with the same error, or none fails.\<close>

definition always_fails :: "string \<Rightarrow> any \<Rightarrow> error option" where
  "always_fails k v = Some (New ''boom'')"

definition never_fails :: "string \<Rightarrow> any \<Rightarrow> error option" where
  "never_fails k v = None"

text \<open>
  Modelled from the spec: the encoders that implement \<^verbatim>\<open>KeyValue\<close> are not in
  \<^verbatim>\<open>field.go\<close>. By the spec, \<^verbatim>\<open>addMarshaler\<close> opens a sub-scope keyed by the key,
  invokes the marshalable's encode routine against the same sink and closes the sub-scope;
  the error it returns is taken to be the routine's. \<^verbatim>\<open>addObject\<close> encodes
  reflectively and may fail. The sink's state is the log of what was written. \<open>scoped am eo\<close> is such a sink
  with its \<^verbatim>\<open>AddMarshaler\<close> left open; \<open>eo\<close> tells which objects fail to encode.
\<close>

datatype 'n entry = Wrote "'n call" | OpenScope string | Ran nat | CloseScope

definition scoped ::
  "(string \<Rightarrow> any \<Rightarrow> 'i word entry list \<Rightarrow> (error option, 'i word entry list) outcome)
   \<Rightarrow> (any \<Rightarrow> error option) \<Rightarrow> ('i::len, 'i word entry list) KeyValue" where
  "scoped am eo =
     \<lparr>AddBool = \<lambda>k v s. s @ [Wrote (CallAddBool k v)],
      AddFloat64 = \<lambda>k v s. s @ [Wrote (CallAddFloat64 k v)],
      AddInt = \<lambda>k v s. s @ [Wrote (CallAddInt k v)],
      AddInt64 = \<lambda>k v s. s @ [Wrote (CallAddInt64 k v)],
      AddString = \<lambda>k v s. s @ [Wrote (CallAddString k v)],
      AddMarshaler = am,
      AddObject = \<lambda>k v s. Returns (eo v) (s @ [Wrote (CallAddObject k v)])\<rparr>"

text \<open>
  \<^verbatim>\<open>AddTo\<close> hands the sink only the field's own payload, so a replay into a scoped
  sink depends on \<open>am\<close> at the payloads of the replayed fields alone. These congruence
  rules let the sink's \<^verbatim>\<open>AddMarshaler\<close> be defined by recursion on the marshaler.
\<close>

lemma AddTo_scoped_cong:
  "f = f' \<Longrightarrow> s = s' \<Longrightarrow> eo = eo' \<Longrightarrow> (\<And>k t. am k (obj f') t = am' k (obj f') t) \<Longrightarrow>
   AddTo (scoped am eo) f s = AddTo (scoped am' eo') f' s'"
  by (simp add: AddTo_def scoped_def fieldType_defs split: option.splits outcome.splits)

lemma addFields_scoped_cong:
  "fs = fs' \<Longrightarrow> s = s' \<Longrightarrow> eo = eo' \<Longrightarrow>
   (\<And>f k t. f \<in> set fs' \<Longrightarrow> am k (obj f) t = am' k (obj f) t) \<Longrightarrow>
   addFields (scoped am eo) fs s = addFields (scoped am' eo') fs' s'"
proof (induction fs' arbitrary: fs s s')
  case Nil
  then show ?case by simp
next
  case (Cons a fs')
  have "AddTo (scoped am eo) a s = AddTo (scoped am' eo') a s'"
    using Cons.prems by (intro AddTo_scoped_cong) auto
  moreover have "\<And>t. addFields (scoped am eo) fs' t = addFields (scoped am' eo') fs' t"
    using Cons.prems by (intro Cons.IH) auto
  ultimately show ?case using Cons.prems by (simp split: outcome.splits)
qed

lemma MarshalLog_scoped_cong [fundef_cong]:
  "fs = fs' \<Longrightarrow> s = s' \<Longrightarrow> eo = eo' \<Longrightarrow>
   (\<And>f k t. f \<in> set fs' \<Longrightarrow> am k (obj f) t = am' k (obj f) t) \<Longrightarrow>
   MarshalLog (scoped am eo) fs s = MarshalLog (scoped am' eo') fs' s'"
  unfolding MarshalLog_def using addFields_scoped_cong [of fs fs' s s' eo eo' am am'] by simp

text \<open>
  The sink's \<^verbatim>\<open>AddMarshaler\<close>. A \<^verbatim>\<open>multiFields\<close> value runs its
  \<^verbatim>\<open>MarshalLog\<close> against this very sink. A caller's marshaler \<open>h\<close> is opaque: the log
  notes that it ran, and \<open>em h\<close> is what it returned (the parameter has type
  \<^verbatim>\<open>LogMarshaler\<close>, so a caller's value that gets here has the method). Calling the
  method of a nil interface panics.
\<close>

function scoped_AddMarshaler ::
  "(nat \<Rightarrow> error option) \<Rightarrow> (any \<Rightarrow> error option) \<Rightarrow> string \<Rightarrow> any
   \<Rightarrow> 'i::len word entry list \<Rightarrow> (error option, 'i word entry list) outcome" where
  "scoped_AddMarshaler em eo k Nil s = Panics NilDereference (s @ [OpenScope k])"
| "scoped_AddMarshaler em eo k (User h st m) s =
     Returns (em h) (s @ [OpenScope k, Ran h, CloseScope])"
| "scoped_AddMarshaler em eo k (multiFields fs) s =
     (case MarshalLog (scoped (\<lambda>k' m' s'. scoped_AddMarshaler em eo k' m' s') eo) fs
             (s @ [OpenScope k]) of
        Panics p s' \<Rightarrow> Panics p s'
      | Returns err s' \<Rightarrow> Returns err (s' @ [CloseScope]))"
  by pat_completeness auto
termination
proof (relation "measure (\<lambda>(em, eo, k, m, s). size m)")
  show "wf (measure (\<lambda>(em :: nat \<Rightarrow> error option, eo :: any \<Rightarrow> error option,
                         k :: string, m :: any, s :: 'a word entry list). size m))"
    by simp
next
  fix em :: "nat \<Rightarrow> error option" and eo :: "any \<Rightarrow> error option"
    and k k' :: string and fs :: "Field list" and s t :: "'a word entry list" and f :: Field
  assume "f \<in> set fs"
  then have "size f < Suc (size_list size fs)"
    by (induction fs) auto
  moreover have "size (obj f) < size f"
    by (cases f) simp
  ultimately show "((em, eo, k', obj f, t), em, eo, k, multiFields fs, s)
                   \<in> measure (\<lambda>(em, eo, k, m, s). size m)"
    by simp
qed

definition encoder ::
  "(nat \<Rightarrow> error option) \<Rightarrow> (any \<Rightarrow> error option) \<Rightarrow> ('i::len, 'i word entry list) KeyValue" where
  "encoder em eo = scoped (scoped_AddMarshaler em eo) eo"

text \<open>Answer tables for the encoder: marshaler 7 fails, every other one succeeds; no
  object fails.\<close>

definition seven_fails :: "nat \<Rightarrow> error option" where
  "seven_fails h = (if h = 7 then Some (New ''boom'') else None)"

definition encodes_all :: "any \<Rightarrow> error option" where
  "encodes_all v = None"

section \<open>Properties of replay\<close>

subsection \<open>What the two sinks do\<close>

lemma recorder_simps:
  "AddBool (recorder em eo) k b s = s @ [CallAddBool k b]"
  "AddFloat64 (recorder em eo) k v s = s @ [CallAddFloat64 k v]"
  "AddInt (recorder em eo) k n s = s @ [CallAddInt k n]"
  "AddInt64 (recorder em eo) k m s = s @ [CallAddInt64 k m]"
  "AddString (recorder em eo) k x s = s @ [CallAddString k x]"
  "AddMarshaler (recorder em eo) k y s = Returns (em k y) (s @ [CallAddMarshaler k y])"
  "AddObject (recorder em eo) k y s = Returns (eo k y) (s @ [CallAddObject k y])"
  by (simp_all add: recorder_def)

lemma encoder_simps:
  "AddBool (encoder um eo) k b s = s @ [Wrote (CallAddBool k b)]"
  "AddFloat64 (encoder um eo) k v s = s @ [Wrote (CallAddFloat64 k v)]"
  "AddInt (encoder um eo) k n s = s @ [Wrote (CallAddInt k n)]"
  "AddInt64 (encoder um eo) k m s = s @ [Wrote (CallAddInt64 k m)]"
  "AddString (encoder um eo) k x s = s @ [Wrote (CallAddString k x)]"
  "AddObject (encoder um eo) k y s = Returns (eo y) (s @ [Wrote (CallAddObject k y)])"
  by (simp_all add: encoder_def scoped_def)

lemma encoder_AddMarshaler:
  "AddMarshaler (encoder um eo) k y s = scoped_AddMarshaler um eo k y s"
  by (simp add: encoder_def scoped_def)

lemma encoder_AddMarshaler_User:
  "AddMarshaler (encoder um eo) k (User h st m) s =
     Returns (um h) (s @ [OpenScope k, Ran h, CloseScope])"
  by (simp add: encoder_AddMarshaler)

lemma encoder_AddMarshaler_multiFields:
  "AddMarshaler (encoder um eo) k (multiFields fs) s =
     (case MarshalLog (encoder um eo) fs (s @ [OpenScope k]) of
        Panics p s' \<Rightarrow> Panics p s'
      | Returns err s' \<Rightarrow> Returns err (s' @ [CloseScope]))"
  by (simp add: encoder_AddMarshaler) (simp add: encoder_def)

lemma MarshalLog_not_error: "MarshalLog kv fs s \<noteq> Returns (Some e) s'"
  by (simp add: MarshalLog_def split: outcome.splits)

lemma AddTo_bool: "fieldType f = boolType \<Longrightarrow> AddTo kv f s = Returns () (AddBool kv (key f) (ival f = 1) s)"
  by (simp add: AddTo_def)

lemma AddTo_float: "fieldType f = floatType \<Longrightarrow>
    AddTo kv f s = Returns () (AddFloat64 kv (key f) (Float64frombits (ival f)) s)"
  by (simp add: AddTo_def fieldType_defs)

lemma AddTo_int: "fieldType f = intType \<Longrightarrow> AddTo kv f s = Returns () (AddInt kv (key f) (scast (ival f)) s)"
  by (simp add: AddTo_def fieldType_defs)

lemma AddTo_int64: "fieldType f = int64Type \<Longrightarrow> AddTo kv f s = Returns () (AddInt64 kv (key f) (ival f) s)"
  by (simp add: AddTo_def fieldType_defs)

lemma AddTo_string: "fieldType f = stringType \<Longrightarrow> AddTo kv f s = Returns () (AddString kv (key f) (str f) s)"
  by (simp add: AddTo_def fieldType_defs)

lemma AddTo_skip: "fieldType f = skipType \<Longrightarrow> AddTo kv f s = Returns () s"
  by (simp add: AddTo_def fieldType_defs)

lemma AddTo_marshaler:
  "fieldType f = marshalerType \<Longrightarrow> is_LogMarshaler (obj f) \<Longrightarrow>
   AddTo kv f s =
     (case AddMarshaler kv (key f) (obj f) s of
        Panics p s' \<Rightarrow> Panics p s'
      | Returns None s' \<Rightarrow> Returns () s'
      | Returns (Some e) s' \<Rightarrow> Returns () (AddString kv (key f @ ''Error'') (message e) s'))"
  by (simp add: AddTo_def fieldType_defs split: outcome.splits option.splits)

lemma AddTo_marshaler_not:
  "fieldType f = marshalerType \<Longrightarrow> \<not> is_LogMarshaler (obj f) \<Longrightarrow>
   AddTo kv f s = Panics (InterfaceConversion (obj f)) s"
  by (simp add: AddTo_def fieldType_defs)

lemma AddTo_object:
  "fieldType f = objectType \<Longrightarrow>
   AddTo kv f s =
     (case AddObject kv (key f) (obj f) s of
        Panics p s' \<Rightarrow> Panics p s'
      | Returns None s' \<Rightarrow> Returns () s'
      | Returns (Some e) s' \<Rightarrow> Returns () (AddString kv (key f @ ''Error'') (message e) s'))"
  by (simp add: AddTo_def fieldType_defs split: outcome.splits option.splits)

lemma AddTo_unknown:
  "fieldType f \<notin> {boolType, floatType, intType, int64Type, stringType, marshalerType,
      objectType, stringerType, skipType} \<Longrightarrow>
   AddTo kv f s = Panics (UnknownFieldType f) s"
  by (simp add: AddTo_def)

lemma AddTo_Nest:
  "AddTo kv (Nest k fs) s =
     (case AddMarshaler kv k (multiFields fs) s of
        Panics p s' \<Rightarrow> Panics p s'
      | Returns None s' \<Rightarrow> Returns () s'
      | Returns (Some e) s' \<Rightarrow> Returns () (AddString kv (k @ ''Error'') (message e) s'))"
  by (simp add: AddTo_marshaler Nest_def split: outcome.splits option.splits)

lemma encoder_AddTo_Nest:
  "AddTo (encoder um eo) (Nest k fs) s =
     (case addFields (encoder um eo) fs (s @ [OpenScope k]) of
        Panics p s' \<Rightarrow> Panics p s'
      | Returns u s' \<Rightarrow> Returns () (s' @ [CloseScope]))"
  by (simp add: AddTo_Nest encoder_AddMarshaler_multiFields MarshalLog_def split: outcome.splits)

lemma int_roundtrip: "LENGTH('i::len) \<le> 64 \<Longrightarrow> scast (scast (n :: 'i word) :: 64 word) = n"
  by (rule scast_up_scast_id) (simp add: is_up)

subsection \<open>Encoder failures\<close>

text \<open>
  C1. For every field of marshaler kind or object kind and every sink whose
  \<^verbatim>\<open>AddMarshaler\<close> (resp. \<^verbatim>\<open>AddObject\<close>), called by \<^verbatim>\<open>AddTo\<close> with the field's
  key, returns a non-nil error \<open>E\<close>: \<^verbatim>\<open>AddTo\<close> returns normally, and after that
  call it makes exactly one more sink call, \<^verbatim>\<open>AddString(key + "Error", E.Error())\<close>.
  \<^verbatim>\<open>AddTo\<close> reaches \<^verbatim>\<open>AddMarshaler\<close> through the assertion
  \<^verbatim>\<open>f.obj.(LogMarshaler)\<close>, so the call exists when the payload is a
  \<^verbatim>\<open>LogMarshaler\<close>.
\<close>

theorem AddTo_absorbs_encoder_error:
  assumes "fieldType f = marshalerType \<and> is_LogMarshaler (obj f)
             \<and> AddMarshaler kv (key f) (obj f) s = Returns (Some E) s'
           \<or> fieldType f = objectType \<and> AddObject kv (key f) (obj f) s = Returns (Some E) s'"
  shows "AddTo kv f s = Returns () (AddString kv (key f @ ''Error'') (message E) s')"
  using assms by (auto simp: AddTo_marshaler AddTo_object)

text \<open>
  On the recording sink, for a failing marshaler and a failing object (the spec's
  \<^verbatim>\<open>payload\<close> example): the encoder call, then the error field.
\<close>

theorem AddTo_absorbs_encoder_error_witness:
  "(fieldType (Marshaler ''k'' (User 1 None True)) = marshalerType
      \<and> is_LogMarshaler (obj (Marshaler ''k'' (User 1 None True)))
      \<and> AddMarshaler (recorder always_fails never_fails :: (64, 64 word call list) KeyValue)
           (key (Marshaler ''k'' (User 1 None True))) (obj (Marshaler ''k'' (User 1 None True))) []
         = Returns (Some (New ''boom'')) [CallAddMarshaler ''k'' (User 1 None True)])
   \<and> AddTo (recorder always_fails never_fails :: (64, 64 word call list) KeyValue)
        (Marshaler ''k'' (User 1 None True)) []
      = Returns () [CallAddMarshaler ''k'' (User 1 None True), CallAddString ''kError'' ''boom'']
   \<and> (fieldType (Object ''payload'' Nil) = objectType
      \<and> AddObject (recorder never_fails always_fails :: (64, 64 word call list) KeyValue)
           (key (Object ''payload'' Nil)) (obj (Object ''payload'' Nil)) []
         = Returns (Some (New ''boom'')) [CallAddObject ''payload'' Nil])
   \<and> AddTo (recorder never_fails always_fails :: (64, 64 word call list) KeyValue)
        (Object ''payload'' Nil) []
      = Returns () [CallAddObject ''payload'' Nil, CallAddString ''payloadError'' ''boom'']"
proof -
  let ?m = "Marshaler ''k'' (User 1 None True)"
  let ?o = "Object ''payload'' Nil"
  let ?r1 = "recorder always_fails never_fails :: (64, 64 word call list) KeyValue"
  let ?r2 = "recorder never_fails always_fails :: (64, 64 word call list) KeyValue"
  have m: "fieldType ?m = marshalerType \<and> is_LogMarshaler (obj ?m)
      \<and> AddMarshaler ?r1 (key ?m) (obj ?m) [] = Returns (Some (New ''boom'')) [CallAddMarshaler ''k'' (User 1 None True)]"
    by (simp add: Marshaler_def recorder_simps always_fails_def)
  have o: "fieldType ?o = objectType
      \<and> AddObject ?r2 (key ?o) (obj ?o) [] = Returns (Some (New ''boom'')) [CallAddObject ''payload'' Nil]"
    by (simp add: Object_def recorder_simps always_fails_def)
  from m have "AddTo ?r1 ?m [] = Returns () (AddString ?r1 (key ?m @ ''Error'') (message (New ''boom'')) [CallAddMarshaler ''k'' (User 1 None True)])"
    by (intro AddTo_absorbs_encoder_error) blast
  moreover from o have "AddTo ?r2 ?o [] = Returns () (AddString ?r2 (key ?o @ ''Error'') (message (New ''boom'')) [CallAddObject ''payload'' Nil])"
    by (intro AddTo_absorbs_encoder_error) blast
  ultimately show ?thesis using m o
    by (simp add: recorder_simps Marshaler_def Object_def)
qed

text \<open>
  Where the assertion fails there is no sink call at all: \<^verbatim>\<open>Marshaler(k, nil)\<close> stores
  a nil interface, and its replay panics with the sink untouched.
\<close>

lemma nil_marshaler_panics:
  "AddTo kv (Marshaler k Nil) s = Panics (InterfaceConversion Nil) s"
  by (simp add: AddTo_marshaler_not Marshaler_def)

subsection \<open>Scalars\<close>

text \<open>
  C2. For every key and every \<^verbatim>\<open>float64\<close> value \<open>v\<close> (every 64-bit pattern: NaNs,
  both infinities, both zeros), replaying \<^verbatim>\<open>Float64(key, v)\<close> makes exactly one sink
  call, \<^verbatim>\<open>AddFloat64(key, v)\<close>, with the bits of \<open>v\<close> unchanged by the passage through
  the integer slot; so the replay of negative zero (sign bit alone) is not that of zero.
\<close>

theorem Float64_replay_bit_exact:
  "AddTo kv (Float64 k v) s = Returns () (AddFloat64 kv k v s)
   \<and> AddTo (recorder em eo) (Float64 k v) h = Returns () (h @ [CallAddFloat64 k v])
   \<and> Float64bits (Float64frombits (ival (Float64 k v))) = Float64bits v
   \<and> AddTo (recorder em eo) (Float64 k (Float64frombits 0x8000000000000000)) h
       \<noteq> AddTo (recorder em eo) (Float64 k (Float64frombits 0)) h"
  by (simp add: AddTo_float Float64_def recorder_simps)

text \<open>
  C7. Replaying \<^verbatim>\<open>Bool(key, b)\<close> makes exactly one sink call, \<^verbatim>\<open>AddBool(key, b)\<close>,
  and no other; replaying \<^verbatim>\<open>Int(key, n)\<close> makes exactly one \<^verbatim>\<open>AddInt(key, n)\<close> and
  replaying \<^verbatim>\<open>Int64(key, m)\<close> exactly one \<^verbatim>\<open>AddInt64(key, m)\<close>, with the integer
  unchanged, for every value of the platform's \<^verbatim>\<open>int\<close> (32 or 64 bits wide: no wider
  than the 64-bit slot) and of \<^verbatim>\<open>int64\<close>.
\<close>

theorem scalar_replay_exact:
  fixes kv :: "('i::len, 's) KeyValue" and n :: "'i word"
  assumes "LENGTH('i) \<le> 64"
  shows "AddTo kv (Bool k b) s = Returns () (AddBool kv k b s)
     \<and> AddTo kv (Int_field k n) s = Returns () (AddInt kv k n s)
     \<and> AddTo kv (Int64 k m) s = Returns () (AddInt64 kv k m s)
     \<and> AddTo (recorder em eo) (Bool k b) h = Returns () (h @ [CallAddBool k b])
     \<and> AddTo (recorder em eo) (Int_field k n) h = Returns () (h @ [CallAddInt k n])
     \<and> AddTo (recorder em eo) (Int64 k m) h = Returns () (h @ [CallAddInt64 k m])"
  using assms
  by (simp add: AddTo_bool AddTo_int AddTo_int64 Bool_def Int_field_def Int64_def
      recorder_simps int_roundtrip)

text \<open>On a 32-bit platform, at the least \<^verbatim>\<open>int\<close> and the greatest \<^verbatim>\<open>int64\<close>; on a
  64-bit platform, at the least \<^verbatim>\<open>int\<close>.\<close>

theorem scalar_replay_exact_witness:
  "LENGTH(32) \<le> (64 :: nat)
   \<and> AddTo (recorder never_fails never_fails) (Bool ''v'' False) [] = Returns () [CallAddBool ''v'' False :: 32 word call]
   \<and> AddTo (recorder never_fails never_fails) (Int_field ''v'' (- 2147483648 :: 32 word)) []
       = Returns () [CallAddInt ''v'' (- 2147483648 :: 32 word)]
   \<and> AddTo (recorder never_fails never_fails) (Int64 ''v'' 9223372036854775807) []
       = Returns () [CallAddInt64 ''v'' 9223372036854775807 :: 32 word call]
   \<and> AddTo (recorder never_fails never_fails) (Int_field ''v'' (- 9223372036854775808 :: 64 word)) []
       = Returns () [CallAddInt ''v'' (- 9223372036854775808 :: 64 word)]"
proof -
  have h: "LENGTH(32) \<le> (64 :: nat)" by simp
  have h64: "LENGTH(64) \<le> (64 :: nat)" by simp
  from scalar_replay_exact [where ?'i = 64, OF h64, where k = "''v''" and b = False
      and n = "- 9223372036854775808" and m = 0
      and em = never_fails and eo = never_fails and h = "[]"
      and kv = "recorder never_fails never_fails" and s = "[]"]
  have w64: "AddTo (recorder never_fails never_fails) (Int_field ''v'' (- 9223372036854775808 :: 64 word)) []
       = Returns () [CallAddInt ''v'' (- 9223372036854775808 :: 64 word)]"
    by (simp add: recorder_simps)
  from scalar_replay_exact [where ?'i = 32, OF h, where k = "''v''" and b = False
      and n = "- 2147483648" and m = 9223372036854775807
      and em = never_fails and eo = never_fails and h = "[]"
      and kv = "recorder never_fails never_fails" and s = "[]"]
  show ?thesis using h w64 by (simp add: recorder_simps)
qed

text \<open>
  C8. For every field of kind bool, float64, int, int64, string or skip there is one
  sequence of calls (of length at most one) that its replay makes on every sink, whatever
  the sink answers and whatever it has received before: replaying the field into two
  independent sinks makes the same calls on both.
\<close>

theorem scalar_replay_deterministic:
  assumes "fieldType f \<in> {boolType, floatType, intType, int64Type, stringType, skipType}"
  shows "\<exists>cs. length cs \<le> 1 \<and>
           (\<forall>em eo h em' eo' h'.
              AddTo (recorder em eo) f h = Returns () (h @ cs)
            \<and> AddTo (recorder em' eo') f h' = Returns () (h' @ cs))"
proof -
  consider "fieldType f = boolType" | "fieldType f = floatType" | "fieldType f = intType"
    | "fieldType f = int64Type" | "fieldType f = stringType" | "fieldType f = skipType"
    using assms by auto
  then show ?thesis
  proof cases
    case 1
    then have "\<forall>em eo h. AddTo (recorder em eo) f h = Returns () (h @ [CallAddBool (key f) (ival f = 1)])"
      by (simp add: AddTo_bool recorder_simps)
    then show ?thesis by (intro exI [of _ "[CallAddBool (key f) (ival f = 1)]"]) simp
  next
    case 2
    then have "\<forall>em eo h. AddTo (recorder em eo) f h = Returns () (h @ [CallAddFloat64 (key f) (Float64frombits (ival f))])"
      by (simp add: AddTo_float recorder_simps)
    then show ?thesis by (intro exI [of _ "[CallAddFloat64 (key f) (Float64frombits (ival f))]"]) simp
  next
    case 3
    then have "\<forall>em eo h. AddTo (recorder em eo) f h = Returns () (h @ [CallAddInt (key f) (scast (ival f))])"
      by (simp add: AddTo_int recorder_simps)
    then show ?thesis by (intro exI [of _ "[CallAddInt (key f) (scast (ival f))]"]) simp
  next
    case 4
    then have "\<forall>em eo h. AddTo (recorder em eo) f h = Returns () (h @ [CallAddInt64 (key f) (ival f)])"
      by (simp add: AddTo_int64 recorder_simps)
    then show ?thesis by (intro exI [of _ "[CallAddInt64 (key f) (ival f)]"]) simp
  next
    case 5
    then have "\<forall>em eo h. AddTo (recorder em eo) f h = Returns () (h @ [CallAddString (key f) (str f)])"
      by (simp add: AddTo_string recorder_simps)
    then show ?thesis by (intro exI [of _ "[CallAddString (key f) (str f)]"]) simp
  next
    case 6
    then have "\<forall>em eo h. AddTo (recorder em eo) f h = Returns () (h @ [])"
      by (simp add: AddTo_skip)
    then show ?thesis by (intro exI [of _ "[]"]) simp
  qed
qed

theorem scalar_replay_deterministic_witness:
  "fieldType (String_field ''method'' ''GET'') \<in> {boolType, floatType, intType, int64Type, stringType, skipType}
   \<and> (\<exists>cs :: 64 word call list.
         AddTo (recorder always_fails never_fails) (String_field ''method'' ''GET'') [] = Returns () ([] @ cs)
       \<and> AddTo (recorder never_fails always_fails) (String_field ''method'' ''GET'') [CallAddBool ''seen'' True]
           = Returns () ([CallAddBool ''seen'' True] @ cs))"
proof -
  have h: "fieldType (String_field ''method'' ''GET'') \<in> {boolType, floatType, intType, int64Type, stringType, skipType}"
    by (simp add: String_field_def)
  from scalar_replay_deterministic [OF h, where ?'a = 64] h show ?thesis by blast
qed

text \<open>
  \<^verbatim>\<open>Duration\<close> is \<^verbatim>\<open>Int64\<close> of the nanosecond count, and a \<^verbatim>\<open>Stringer\<close> field
  calls \<^verbatim>\<open>String()\<close> at replay; on a nil \<^verbatim>\<open>fmt.Stringer\<close> the assertion panics.
\<close>

lemma Duration_replay:
  "AddTo kv (Duration k d) s = Returns () (AddInt64 kv k d s)"
  by (simp add: Duration_def Int64_def AddTo_int64)

lemma Stringer_replay:
  "AddTo kv (Stringer k (User h (Some text) m)) s = Returns () (AddString kv k text s)"
  "AddTo kv (Stringer k Nil) s = Panics (InterfaceConversion Nil) s"
  by (simp_all add: Stringer_def AddTo_def fieldType_defs)

text \<open>
  C4. \<^verbatim>\<open>Error(nil)\<close> replays with no sink call; \<^verbatim>\<open>Error(err)\<close> with a non-nil
  \<open>err\<close> replays as exactly one call, \<^verbatim>\<open>AddString("error", err.Error())\<close>.
\<close>

theorem Error_replay:
  "AddTo kv (Error None) s = Returns () s
   \<and> AddTo (recorder em eo) (Error None) h = Returns () h
   \<and> AddTo kv (Error (Some e)) s = Returns () (AddString kv ''error'' (message e) s)
   \<and> AddTo (recorder em eo) (Error (Some e)) h = Returns () (h @ [CallAddString ''error'' (message e)])"
  by (simp add: Error_def Skip_def String_field_def AddTo_skip AddTo_string recorder_simps)

text \<open>
  The encoder on the test vectors of RFC 4648, and the length of its output: four
  characters for every started group of three bytes.
\<close>

lemma EncodeToString_rfc4648:
  "EncodeToString [] = []"
  "EncodeToString [102] = ''Zg==''"
  "EncodeToString [102, 111] = ''Zm8=''"
  "EncodeToString [102, 111, 111] = ''Zm9v''"
  "EncodeToString [102, 111, 111, 98] = ''Zm9vYg==''"
  "EncodeToString [102, 111, 111, 98, 97] = ''Zm9vYmE=''"
  "EncodeToString [102, 111, 111, 98, 97, 114] = ''Zm9vYmFy''"
  by (simp_all add: encodeStd_def)

lemma length_EncodeToString:
  "length (EncodeToString bs) = 4 * ((length bs + 2) div 3)"
proof (induction bs rule: EncodeToString.induct)
  case (1 a b c src)
  have "(length (a # b # c # src) + 2) div 3 = Suc ((length src + 2) div 3)"
    by simp
  with 1 show ?case by (simp add: Let_def)
qed (simp_all add: Let_def)

text \<open>
  C6. \<^verbatim>\<open>Base64(key, bs)\<close> is a field of string kind that holds the padded base64
  text of \<open>bs\<close>, computed when the field is built; its replay is exactly one call,
  \<^verbatim>\<open>AddString(key, text)\<close>. Bytes 0, 1, 2, 3 under key \<^verbatim>\<open>b\<close> give
  \<^verbatim>\<open>AddString("b", "AAECAw==")\<close>.
\<close>

theorem Base64_replay:
  "fieldType (Base64 k bs) = stringType
   \<and> str (Base64 k bs) = EncodeToString bs
   \<and> AddTo kv (Base64 k bs) s = Returns () (AddString kv k (EncodeToString bs) s)
   \<and> AddTo (recorder em eo) (Base64 k bs) h = Returns () (h @ [CallAddString k (EncodeToString bs)])
   \<and> EncodeToString [0, 1, 2, 3] = ''AAECAw==''
   \<and> AddTo (recorder em eo) (Base64 ''b'' [0, 1, 2, 3]) h = Returns () (h @ [CallAddString ''b'' ''AAECAw==''])"
  by (simp add: Base64_def String_field_def AddTo_string recorder_simps encodeStd_def)

subsection \<open>Unknown kinds\<close>

text \<open>
  C5. A field whose discriminant is none of the nine kinds \<^verbatim>\<open>AddTo\<close> knows makes
  \<^verbatim>\<open>AddTo\<close> panic, with the sink untouched: no call has been made.
\<close>

theorem unknown_kind_panics:
  assumes "fieldType f \<notin> {boolType, floatType, intType, int64Type, stringType, marshalerType,
      objectType, stringerType, skipType}"
  shows "AddTo kv f s = Panics (UnknownFieldType f) s
     \<and> AddTo (recorder em eo) f h = Panics (UnknownFieldType f) h"
  using assms by (simp add: AddTo_unknown)


theorem unknown_kind_panics_witness:
  "fieldType (Field ''x'' 10 0 [] Nil) \<notin> {boolType, floatType, intType, int64Type, stringType,
      marshalerType, objectType, stringerType, skipType}
   \<and> AddTo (recorder never_fails never_fails :: (64, 64 word call list) KeyValue)
        (Field ''x'' 10 0 [] Nil) [CallAddBool ''a'' True]
      = Panics (UnknownFieldType (Field ''x'' 10 0 [] Nil)) [CallAddBool ''a'' True]"
proof -
  have h: "fieldType (Field ''x'' 10 0 [] Nil) \<notin> {boolType, floatType, intType, int64Type, stringType,
      marshalerType, objectType, stringerType, skipType}"
    by (simp add: fieldType_defs)
  from unknown_kind_panics [OF h, of "recorder never_fails never_fails :: (64, 64 word call list) KeyValue"
      "[]" never_fails never_fails "[CallAddBool ''a'' True] :: 64 word call list"] h
  show ?thesis by simp
qed

text \<open>
  C9. The zero value of \<^verbatim>\<open>Field\<close> has discriminant 0, which is \<^verbatim>\<open>unknownType\<close>
  and not \<^verbatim>\<open>skipType\<close>: replaying it panics, where replaying \<^verbatim>\<open>Skip()\<close> returns
  without a call.
\<close>

theorem zero_value_Field_panics:
  "fieldType (Field [] 0 0 [] Nil) = unknownType
   \<and> unknownType \<noteq> skipType
   \<and> AddTo kv (Field [] 0 0 [] Nil) s = Panics (UnknownFieldType (Field [] 0 0 [] Nil)) s
   \<and> AddTo (recorder em eo) (Field [] 0 0 [] Nil) h = Panics (UnknownFieldType (Field [] 0 0 [] Nil)) h
   \<and> AddTo kv Skip s = Returns () s"
  by (simp add: AddTo_unknown AddTo_skip Skip_def fieldType_defs)

subsection \<open>Nested groups\<close>

lemma recorder_AddTo_returns:
  assumes "replayable f"
  shows "\<exists>t. AddTo (recorder em eo) f h = Returns () t"
  using assms
  by (auto simp: replayable_def AddTo_def fieldType_defs recorder_simps split: option.splits)

lemma recorder_addFields_returns:
  "list_all replayable fs \<Longrightarrow> \<exists>t. addFields (recorder em eo) fs h = Returns () t"
proof (induction fs arbitrary: h)
  case Nil
  then show ?case by simp
next
  case (Cons f fs)
  then obtain t where "AddTo (recorder em eo) f h = Returns () t"
    using recorder_AddTo_returns [of f em eo h] by auto
  moreover obtain t' where "addFields (recorder em eo) fs t = Returns () t'"
    using Cons by auto
  ultimately show ?case by simp
qed

lemma recorder_MarshalLog_returns_nil:
  "list_all replayable fs \<Longrightarrow> \<exists>t. MarshalLog (recorder em eo) fs h = Returns None t"
  using recorder_addFields_returns [of fs em eo h] by (auto simp: MarshalLog_def)

lemma encoder_AddMarshaler_no_error:
  "AddMarshaler (encoder um eo) k (multiFields fs) s \<noteq> Returns (Some e) s'"
  by (simp add: encoder_AddMarshaler_multiFields MarshalLog_def split: outcome.splits)

lemma encoder_AddTo_Nest_MarshalLog:
  "AddTo (encoder um eo) (Nest k fs) s =
     (case MarshalLog (encoder um eo) fs (s @ [OpenScope k]) of
        Panics p s' \<Rightarrow> Panics p s'
      | Returns err s' \<Rightarrow> Returns () (s' @ [CloseScope]))"
  by (simp add: encoder_AddTo_Nest MarshalLog_def split: outcome.splits)

text \<open>
  C3. For every key and every sequence of fields \<open>fs\<close>, empty or not, replaying
  \<^verbatim>\<open>Nest(key, fs)\<close> makes one sink call, \<^verbatim>\<open>AddMarshaler(key, m)\<close> with \<open>m\<close> the
  \<^verbatim>\<open>multiFields\<close> of \<open>fs\<close>, and nothing more when that call returns nil. Invoking
  \<open>m\<close>'s \<^verbatim>\<open>MarshalLog\<close> on any sink replays the fields of \<open>fs\<close> into that sink, first
  to last, each by its own \<^verbatim>\<open>AddTo\<close>, and returns nil. On the encoder, which opens a
  sub-scope keyed by the key, invokes \<open>m\<close> and closes the sub-scope, the replay of the
  group is: open, the replay of \<open>fs\<close>, close; \<open>fs\<close> may hold groups in turn.
\<close>

theorem Nest_replay:
  "(AddMarshaler kv k (multiFields fs) s = Returns None s' \<longrightarrow> AddTo kv (Nest k fs) s = Returns () s')
   \<and> AddTo (recorder never_fails eo) (Nest k fs) h = Returns () (h @ [CallAddMarshaler k (multiFields fs)])
   \<and> MarshalLog kv [] s = Returns None s
   \<and> MarshalLog kv (f # fs) s =
        (case AddTo kv f s of Panics p t \<Rightarrow> Panics p t | Returns u t \<Rightarrow> MarshalLog kv fs t)
   \<and> AddTo (encoder um eo') (Nest k fs) l =
        (case MarshalLog (encoder um eo') fs (l @ [OpenScope k]) of
           Panics p l' \<Rightarrow> Panics p l'
         | Returns err l' \<Rightarrow> Returns () (l' @ [CloseScope]))"
proof (intro conjI impI)
  assume "AddMarshaler kv k (multiFields fs) s = Returns None s'"
  then show "AddTo kv (Nest k fs) s = Returns () s'"
    by (simp add: AddTo_Nest)
next
  show "AddTo (recorder never_fails eo) (Nest k fs) h = Returns () (h @ [CallAddMarshaler k (multiFields fs)])"
    by (simp add: AddTo_Nest recorder_simps never_fails_def)
next
  show "MarshalLog kv [] s = Returns None s"
    by (simp add: MarshalLog_def)
next
  show "MarshalLog kv (f # fs) s =
        (case AddTo kv f s of Panics p t \<Rightarrow> Panics p t | Returns u t \<Rightarrow> MarshalLog kv fs t)"
    by (simp add: MarshalLog_def split: outcome.splits)
next
  show "AddTo (encoder um eo') (Nest k fs) l =
        (case MarshalLog (encoder um eo') fs (l @ [OpenScope k]) of
           Panics p l' \<Rightarrow> Panics p l'
         | Returns err l' \<Rightarrow> Returns () (l' @ [CloseScope]))"
    by (rule encoder_AddTo_Nest_MarshalLog)
qed


text \<open>
  The spec's example: group \<^verbatim>\<open>req\<close> holding \<^verbatim>\<open>Int("status", 200)\<close> and
  \<^verbatim>\<open>String("method", "GET")\<close>; then an empty group, and a group within a group.
\<close>

theorem Nest_replay_witness:
  "AddMarshaler (encoder seven_fails encodes_all :: (64, 64 word entry list) KeyValue) ''req''
      (multiFields [Int_field ''status'' (200 :: 64 word), String_field ''method'' ''GET'']) []
    = Returns None [OpenScope ''req'', Wrote (CallAddInt ''status'' 200),
                    Wrote (CallAddString ''method'' ''GET''), CloseScope]
   \<and> AddTo (encoder seven_fails encodes_all :: (64, 64 word entry list) KeyValue)
        (Nest ''req'' [Int_field ''status'' (200 :: 64 word), String_field ''method'' ''GET'']) []
    = Returns () [OpenScope ''req'', Wrote (CallAddInt ''status'' 200),
                  Wrote (CallAddString ''method'' ''GET''), CloseScope]
   \<and> AddTo (encoder seven_fails encodes_all :: (64, 64 word entry list) KeyValue) (Nest ''e'' []) []
    = Returns () [OpenScope ''e'', CloseScope]
   \<and> AddTo (encoder seven_fails encodes_all :: (64, 64 word entry list) KeyValue)
        (Nest ''a'' [Nest ''b'' [Bool ''c'' True], Bool ''d'' False]) []
    = Returns () [OpenScope ''a'', OpenScope ''b'', Wrote (CallAddBool ''c'' True), CloseScope,
                  Wrote (CallAddBool ''d'' False), CloseScope]"
proof -
  let ?enc = "encoder seven_fails encodes_all :: (64, 64 word entry list) KeyValue"
  let ?fs = "[Int_field ''status'' (200 :: 64 word), String_field ''method'' ''GET'']"
  let ?log = "[OpenScope ''req'', Wrote (CallAddInt ''status'' 200),
               Wrote (CallAddString ''method'' ''GET''), CloseScope] :: 64 word entry list"
  have h: "AddMarshaler ?enc ''req'' (multiFields ?fs) [] = Returns None ?log"
    by (simp add: encoder_AddMarshaler_multiFields MarshalLog_def AddTo_int AddTo_string
        Int_field_def String_field_def encoder_simps)
  have e: "AddTo ?enc (Nest ''e'' []) [] = Returns () [OpenScope ''e'', CloseScope]"
    by (simp add: encoder_AddTo_Nest)
  have n: "AddTo ?enc (Nest ''a'' [Nest ''b'' [Bool ''c'' True], Bool ''d'' False]) []
      = Returns () [OpenScope ''a'', OpenScope ''b'', Wrote (CallAddBool ''c'' True), CloseScope,
                    Wrote (CallAddBool ''d'' False), CloseScope]"
    by (simp add: encoder_AddTo_Nest AddTo_bool Bool_def encoder_simps)
  from Nest_replay [where kv = ?enc and k = "''req''" and fs = ?fs and s = "[]" and s' = ?log] h
  have "AddTo ?enc (Nest ''req'' ?fs) [] = Returns () ?log" by blast
  with h e n show ?thesis by simp
qed

text \<open>
  C10. \<^verbatim>\<open>multiFields.MarshalLog\<close> never returns a non-nil error, whatever the replay
  of the inner fields does; it returns nil on the recording sink for every sequence of
  replayable fields and every pattern of encoder failures (only a panic keeps it from
  returning). So when the sink hands back what \<^verbatim>\<open>MarshalLog\<close> returned, as
  the encoder does, replaying a nested group writes no \<^verbatim>\<open>key + "Error"\<close> field at the
  level of the group: on the encoder the replay ends by closing the group's scope, and a
  failure of an inner field's marshaler is written by that field's own \<^verbatim>\<open>AddTo\<close>,
  inside the scope.
\<close>

theorem nested_group_reports_no_error:
  "MarshalLog kv fs s \<noteq> Returns (Some e) s'
   \<and> (list_all replayable fs \<longrightarrow> (\<exists>h'. MarshalLog (recorder em eo') fs h = Returns None h'))
   \<and> (AddMarshaler kv k (multiFields fs) s = Returns err s' \<and> MarshalLog kv' fs t = Returns err t'
        \<longrightarrow> AddTo kv (Nest k fs) s = Returns () s')
   \<and> AddMarshaler (encoder um eo) k (multiFields fs) l \<noteq> Returns (Some e) l'
   \<and> AddTo (encoder um eo) (Nest k fs) l =
        (case addFields (encoder um eo) fs (l @ [OpenScope k]) of
           Panics p l' \<Rightarrow> Panics p l'
         | Returns u l' \<Rightarrow> Returns () (l' @ [CloseScope]))
   \<and> AddTo (encoder um eo) (Nest k fs) l \<noteq> Returns () (l'' @ [Wrote (CallAddString (k @ ''Error'') msg)])"
proof (intro conjI impI)
  show "MarshalLog kv fs s \<noteq> Returns (Some e) s'"
    by (rule MarshalLog_not_error)
next
  assume "list_all replayable fs"
  then show "\<exists>h'. MarshalLog (recorder em eo') fs h = Returns None h'"
    by (rule recorder_MarshalLog_returns_nil)
next
  assume a: "AddMarshaler kv k (multiFields fs) s = Returns err s' \<and> MarshalLog kv' fs t = Returns err t'"
  then have "err = None"
    using MarshalLog_not_error [of kv' fs t _ t'] by (cases err) auto
  with a show "AddTo kv (Nest k fs) s = Returns () s'"
    by (simp add: AddTo_Nest)
next
  show "AddMarshaler (encoder um eo) k (multiFields fs) l \<noteq> Returns (Some e) l'"
    by (rule encoder_AddMarshaler_no_error)
next
  show "AddTo (encoder um eo) (Nest k fs) l =
        (case addFields (encoder um eo) fs (l @ [OpenScope k]) of
           Panics p l' \<Rightarrow> Panics p l'
         | Returns u l' \<Rightarrow> Returns () (l' @ [CloseScope]))"
    by (rule encoder_AddTo_Nest)
next
  show "AddTo (encoder um eo) (Nest k fs) l \<noteq> Returns () (l'' @ [Wrote (CallAddString (k @ ''Error'') msg)])"
    by (simp add: encoder_AddTo_Nest split: outcome.splits)
qed


text \<open>
  A group whose first inner field holds the failing marshaler 7: the error field
  \<^verbatim>\<open>mError\<close> lies inside the scope of \<^verbatim>\<open>g\<close>, and nothing follows the closing of
  \<^verbatim>\<open>g\<close>. On a recording sink where every encoder fails, \<^verbatim>\<open>MarshalLog\<close> of the same
  fields still returns nil.
\<close>

theorem nested_group_reports_no_error_witness:
  "(AddMarshaler (encoder seven_fails encodes_all :: (64, 64 word entry list) KeyValue) ''g''
       (multiFields [Marshaler ''m'' (User 7 None True), Bool ''b'' True]) []
     = Returns None [OpenScope ''g'', OpenScope ''m'', Ran 7, CloseScope,
                     Wrote (CallAddString ''mError'' ''boom''), Wrote (CallAddBool ''b'' True), CloseScope]
    \<and> MarshalLog (encoder seven_fails encodes_all :: (64, 64 word entry list) KeyValue)
       [Marshaler ''m'' (User 7 None True), Bool ''b'' True] [OpenScope ''g'']
     = Returns None [OpenScope ''g'', OpenScope ''m'', Ran 7, CloseScope,
                     Wrote (CallAddString ''mError'' ''boom''), Wrote (CallAddBool ''b'' True)])
   \<and> AddTo (encoder seven_fails encodes_all :: (64, 64 word entry list) KeyValue)
       (Nest ''g'' [Marshaler ''m'' (User 7 None True), Bool ''b'' True]) []
     = Returns () [OpenScope ''g'', OpenScope ''m'', Ran 7, CloseScope,
                   Wrote (CallAddString ''mError'' ''boom''), Wrote (CallAddBool ''b'' True), CloseScope]
   \<and> list_all replayable [Marshaler ''m'' (User 7 None True), Bool ''b'' True]
   \<and> MarshalLog (recorder always_fails always_fails :: (64, 64 word call list) KeyValue)
       [Marshaler ''m'' (User 7 None True), Bool ''b'' True] []
     = Returns None [CallAddMarshaler ''m'' (User 7 None True), CallAddString ''mError'' ''boom'',
                     CallAddBool ''b'' True]"
proof -
  let ?enc = "encoder seven_fails encodes_all :: (64, 64 word entry list) KeyValue"
  let ?fs = "[Marshaler ''m'' (User 7 None True), Bool ''b'' True]"
  let ?inner = "[OpenScope ''g'', OpenScope ''m'', Ran 7, CloseScope,
                 Wrote (CallAddString ''mError'' ''boom''), Wrote (CallAddBool ''b'' True)] :: 64 word entry list"
  have m: "MarshalLog ?enc ?fs [OpenScope ''g''] = Returns None ?inner"
    by (simp add: MarshalLog_def AddTo_marshaler AddTo_bool Marshaler_def Bool_def
        encoder_AddMarshaler_User encoder_simps seven_fails_def)
  have a: "AddMarshaler ?enc ''g'' (multiFields ?fs) [] = Returns None (?inner @ [CloseScope])"
    by (simp add: encoder_AddMarshaler_multiFields m)
  have "AddMarshaler ?enc ''g'' (multiFields ?fs) [] = Returns None (?inner @ [CloseScope])
          \<and> MarshalLog ?enc ?fs [OpenScope ''g''] = Returns None ?inner
        \<longrightarrow> AddTo ?enc (Nest ''g'' ?fs) [] = Returns () (?inner @ [CloseScope])"
    using nested_group_reports_no_error [where kv = ?enc and kv' = ?enc and k = "''g''" and fs = ?fs
      and s = "[]" and s' = "?inner @ [CloseScope]" and t = "[OpenScope ''g'']" and t' = ?inner
      and err = None and um = seven_fails and eo = encodes_all and l = "[] :: 64 word entry list"
      and l' = "[]" and l'' = "[]" and e = "New []" and msg = "[]"
      and em = always_fails and eo' = always_fails and h = "[] :: 64 word call list"]
    by blast
  moreover have "list_all replayable ?fs"
    by (simp add: replayable_def Marshaler_def Bool_def fieldType_defs)
  moreover have "MarshalLog (recorder always_fails always_fails :: (64, 64 word call list) KeyValue) ?fs []
      = Returns None [CallAddMarshaler ''m'' (User 7 None True), CallAddString ''mError'' ''boom'',
                      CallAddBool ''b'' True]"
    by (simp add: MarshalLog_def AddTo_marshaler AddTo_bool Marshaler_def Bool_def
        recorder_simps always_fails_def)
  ultimately show ?thesis using a m by simp
qed

end
